theory Spec2Isabelle
  imports Complex_Main
begin

section \<open>Exceptions, breaker state and the outside world\<close>

text \<open>
  The exception classes of \<^verbatim>\<open>prediction_client.py\<close> (lines 48-60), the
  \<^verbatim>\<open>RetryError\<close> of the retry library (it wraps the exception of the last
  attempt), the \<^verbatim>\<open>ParseError\<close> of \<^verbatim>\<open>json_format\<close>, Python's
  \<^verbatim>\<open>ValueError\<close>, and \<^verbatim>\<open>Exception\<close> for any other exception a wrapped
  function, the SDK or a library raises. Every constructor is a subclass of Python's
  \<^verbatim>\<open>Exception\<close>; the string is \<^verbatim>\<open>str(e)\<close>.
\<close>

datatype exn =
    PredictionError string
  | QuotaExceededError string
  | ModelUnavailableError string
  | RetryError exn
  | ParseError string
  | ValueError string
  | Exception string

datatype CircuitBreakerState = CLOSED | OPEN | HALF_OPEN

text \<open>
  The fields of \<^verbatim>\<open>CircuitBreaker\<close> (lines 96-102). \<^verbatim>\<open>expected_exception\<close> is
  a class in the source; here it is the test \<^verbatim>\<open>isinstance(e, expected_exception)\<close>.
  Timestamps are the values of \<^verbatim>\<open>time.time()\<close>, read as real numbers of seconds.
\<close>

record CircuitBreaker =
  failure_threshold :: int
  recovery_timeout :: int
  expected_exception :: "exn \<Rightarrow> bool"
  failure_count :: int
  last_failure_time :: "real option"
  state :: CircuitBreakerState

text \<open>
  What the code reads and changes outside its own objects: the clock that
  \<^verbatim>\<open>time.time()\<close> reads, the payloads the SDK's \<^verbatim>\<open>client.predict\<close> has
  received so far (oldest first), and the waits the retry decorator has slept.
\<close>

record 'i world =
  now :: real
  requests :: "'i list list"
  sleeps :: "real list"

text \<open>A callable with effects: it returns or raises, and leaves a new world.\<close>

type_synonym ('i, 'a) action = "'i world \<Rightarrow> (exn + 'a) \<times> 'i world"

section \<open>CircuitBreaker\<close>

definition CircuitBreaker_init :: "int \<Rightarrow> int \<Rightarrow> (exn \<Rightarrow> bool) \<Rightarrow> CircuitBreaker" where
  "CircuitBreaker_init threshold timeout expected =
     \<lparr> failure_threshold = threshold, recovery_timeout = timeout,
       expected_exception = expected, failure_count = 0,
       last_failure_time = None, state = CLOSED \<rparr>"

text \<open>\<^verbatim>\<open>_should_attempt_reset\<close> (lines 120-125); \<open>t\<close> is what \<^verbatim>\<open>time.time()\<close> returns.\<close>

definition should_attempt_reset :: "CircuitBreaker \<Rightarrow> real \<Rightarrow> bool" where
  "should_attempt_reset cb t =
     (case last_failure_time cb of
        None \<Rightarrow> False
      | Some lf \<Rightarrow> t - lf \<ge> of_int (recovery_timeout cb))"

text \<open>\<^verbatim>\<open>_on_success\<close> (lines 127-130).\<close>

definition on_success :: "CircuitBreaker \<Rightarrow> CircuitBreaker" where
  "on_success cb = cb\<lparr>failure_count := 0, state := CLOSED\<rparr>"

text \<open>\<^verbatim>\<open>_on_failure\<close> (lines 132-139); \<open>t\<close> is what \<^verbatim>\<open>time.time()\<close> returns.\<close>

definition on_failure :: "CircuitBreaker \<Rightarrow> real \<Rightarrow> CircuitBreaker" where
  "on_failure cb t =
     (let cb1 = cb\<lparr>failure_count := failure_count cb + 1, last_failure_time := Some t\<rparr>
      in if failure_count cb1 \<ge> failure_threshold cb1 then cb1\<lparr>state := OPEN\<rparr> else cb1)"

text \<open>
  The \<^verbatim>\<open>try\<close> block of \<^verbatim>\<open>call\<close> (lines 112-118): run the function; a result
  goes through \<^verbatim>\<open>_on_success\<close>; an exception the \<^verbatim>\<open>except\<close> clause matches goes
  through \<^verbatim>\<open>_on_failure\<close> and is raised again; any other exception passes untouched.
\<close>

definition call_try :: "CircuitBreaker \<Rightarrow> ('i, 'a) action \<Rightarrow> 'i world
    \<Rightarrow> (exn + 'a) \<times> CircuitBreaker \<times> 'i world" where
  "call_try cb func w =
     (case func w of
        (Inr result, w') \<Rightarrow> (Inr result, on_success cb, w')
      | (Inl e, w') \<Rightarrow>
          if expected_exception cb e then (Inl e, on_failure cb (now w'), w')
          else (Inl e, cb, w'))"

text \<open>\<^verbatim>\<open>CircuitBreaker.call\<close> (lines 104-118).\<close>

definition call :: "CircuitBreaker \<Rightarrow> ('i, 'a) action \<Rightarrow> 'i world
    \<Rightarrow> (exn + 'a) \<times> CircuitBreaker \<times> 'i world" where
  "call cb func w =
     (if state cb = OPEN then
        (if should_attempt_reset cb (now w) then call_try (cb\<lparr>state := HALF_OPEN\<rparr>) func w
         else (Inl (ModelUnavailableError ''Circuit breaker is OPEN''), cb, w))
      else call_try cb func w)"

section \<open>Strings\<close>

text \<open>
  \<^verbatim>\<open>str.lower()\<close> on the code points below 256 (a \<^typ>\<open>char\<close> is one of them):
  the capital letters A-Z and the capital letters of Latin-1 move up by 32.
\<close>

definition lower_char :: "char \<Rightarrow> char" where
  "lower_char c =
     (let n = (of_char c :: nat)
      in if (65 \<le> n \<and> n \<le> 90) \<or> (192 \<le> n \<and> n \<le> 222 \<and> n \<noteq> 215)
         then char_of (n + 32) else c)"

definition lower :: "string \<Rightarrow> string" where
  "lower s = map lower_char s"

text \<open>\<^verbatim>\<open>s.startswith(p)\<close> and the substring test \<^verbatim>\<open>p in s\<close>.\<close>

fun startswith :: "string \<Rightarrow> string \<Rightarrow> bool" where
  "startswith s [] = True"
| "startswith [] (p # ps) = False"
| "startswith (c # cs) (p # ps) = (c = p \<and> startswith cs ps)"

fun str_in :: "string \<Rightarrow> string \<Rightarrow> bool" where
  "str_in p [] = (p = [])"
| "str_in p (c # cs) = (startswith (c # cs) p \<or> str_in p cs)"

section \<open>PredictionClient\<close>

text \<open>
  The dataclass \<^verbatim>\<open>PredictionResponse\<close> (lines 63-69). Predictions and metadata are
  what \<^verbatim>\<open>MessageToDict\<close> returns and are not looked into; as metadata, \<open>None\<close>
  stands for the empty dict \<^verbatim>\<open>{}\<close> of line 314.
\<close>

record ('p, 'm) PredictionResponse =
  predictions :: "'p list"
  deployed_model_id :: string
  metadata :: 'm
  latency_ms :: real

text \<open>
  What \<^verbatim>\<open>_make_prediction_request\<close> calls outside its class, for one client (the
  endpoint path and the timeout are fixed). \<open>'j\<close> is the type of the dicts the caller
  passes and gets, \<open>'v\<close> the type of protobuf values.
  \<^verbatim>\<open>json_format.ParseDict(d, Value())\<close> returns the protobuf value of a dict or
  raises. The SDK's \<^verbatim>\<open>client.predict\<close>, given the world, the converted instances
  and the converted parameters, takes some seconds and either raises (\<^verbatim>\<open>str(e)\<close> is
  kept) or returns the predictions, the deployed model id and the metadata (\<open>None\<close> when
  \<^verbatim>\<open>response.metadata\<close> is falsy). \<^verbatim>\<open>json_format.MessageToDict\<close> returns the
  dict of a protobuf value or raises.
\<close>

record ('j, 'v) remote =
  ParseDict :: "'j \<Rightarrow> exn + 'v"
  client_predict :: "'v world \<Rightarrow> 'v list \<Rightarrow> 'v option
                       \<Rightarrow> real \<times> (string + 'v list \<times> string \<times> 'v option)"
  MessageToDict :: "'v \<Rightarrow> exn + 'j"

text \<open>
  A list comprehension \<^verbatim>\<open>[f(x) for x in xs]\<close> whose \<^verbatim>\<open>f\<close> may raise: the
  elements are converted from the first on, and the first exception ends it.
\<close>

fun comprehension :: "('a \<Rightarrow> exn + 'b) \<Rightarrow> 'a list \<Rightarrow> exn + 'b list" where
  "comprehension f [] = Inr []"
| "comprehension f (x # xs) =
     (case f x of
        Inl e \<Rightarrow> Inl e
      | Inr y \<Rightarrow> (case comprehension f xs of Inl e \<Rightarrow> Inl e | Inr ys \<Rightarrow> Inr (y # ys)))"

text \<open>
  The conversion of a value that is only converted when it is truthy (the parameters of
  lines 286-288, the metadata of line 314); \<open>None\<close> stands for a falsy value.
\<close>

definition if_truthy :: "('a \<Rightarrow> exn + 'b) \<Rightarrow> 'a option \<Rightarrow> exn + 'b option" where
  "if_truthy f x =
     (case x of
        None \<Rightarrow> Inr None
      | Some a \<Rightarrow> (case f a of Inl e \<Rightarrow> Inl e | Inr b \<Rightarrow> Inr (Some b)))"

text \<open>The \<^verbatim>\<open>except\<close> block of \<^verbatim>\<open>_make_prediction_request\<close> (lines 298-307).\<close>

definition classify_error :: "string \<Rightarrow> exn" where
  "classify_error error_msg =
     (if str_in ''quota'' (lower error_msg) \<or> str_in ''429'' error_msg
        then QuotaExceededError (''Quota exceeded: '' @ error_msg)
      else if str_in ''503'' error_msg \<or> str_in ''unavailable'' (lower error_msg)
        then ModelUnavailableError (''Model unavailable: '' @ error_msg)
      else PredictionError (''Prediction failed: '' @ error_msg))"

text \<open>
  \<^verbatim>\<open>_make_prediction_request\<close> (lines 274-329); logging is left out. The two
  conversions of lines 283-288 come before the \<^verbatim>\<open>try\<close>: an exception of theirs
  leaves the function as it is, and the SDK has not been called. Only an exception of the
  SDK call is classified. The conversions of lines 312-314 come after the call: an
  exception of theirs leaves the function as it is, the request made. The clock moves with
  the SDK call only.
\<close>

definition make_prediction_request :: "('j, 'v) remote \<Rightarrow> 'j list \<Rightarrow> 'j option
    \<Rightarrow> ('v, ('j, 'j option) PredictionResponse) action" where
  "make_prediction_request remote instances parameters w =
     (let start_time = now w
      in case comprehension (ParseDict remote) instances of
           Inl e \<Rightarrow> (Inl e, w)
         | Inr instances_proto \<Rightarrow>
             (case if_truthy (ParseDict remote) parameters of
                Inl e \<Rightarrow> (Inl e, w)
              | Inr parameters_proto \<Rightarrow>
                  (let (took, outcome) = client_predict remote w instances_proto parameters_proto;
                       w' = w\<lparr>now := now w + took, requests := requests w @ [instances_proto]\<rparr>
                   in case outcome of
                        Inl error_msg \<Rightarrow> (Inl (classify_error error_msg), w')
                      | Inr (preds, model_id, meta) \<Rightarrow>
                          (let latency = (now w' - start_time) * 1000
                           in case comprehension (MessageToDict remote) preds of
                                Inl e \<Rightarrow> (Inl e, w')
                              | Inr preds_dict \<Rightarrow>
                                  (case if_truthy (MessageToDict remote) meta of
                                     Inl e \<Rightarrow> (Inl e, w')
                                   | Inr meta_dict \<Rightarrow>
                                       (Inr \<lparr>predictions = preds_dict,
                                             deployed_model_id = model_id,
                                             metadata = meta_dict,
                                             latency_ms = latency\<rparr>, w'))))))"

text \<open>
  The argument \<^verbatim>\<open>instances: Union[Dict, List[Dict]]\<close> of \<^verbatim>\<open>predict\<close> and the
  normalisation of lines 250-251. The argument \<^verbatim>\<open>parameters: Optional[Dict]\<close> is
  an option, \<open>None\<close> standing for a falsy value (\<^verbatim>\<open>None\<close> or an empty dict), which
  line 287 does not convert.
\<close>

datatype 'i instances_arg = Single 'i | Many "'i list"

fun normalize :: "'i instances_arg \<Rightarrow> 'i list" where
  "normalize (Single inst) = [inst]"
| "normalize (Many insts) = insts"

text \<open>
  The body of \<^verbatim>\<open>predict\<close> (lines 249-272), without its decorator: one call of the
  breaker around \<^verbatim>\<open>_make_prediction_request\<close>; the \<^verbatim>\<open>except\<close> clause raises the
  exception again. The tracing span and the log line are left out.
\<close>

definition predict_body :: "('j, 'v) remote \<Rightarrow> 'j instances_arg \<Rightarrow> 'j option
    \<Rightarrow> CircuitBreaker \<Rightarrow> 'v world
    \<Rightarrow> (exn + ('j, 'j option) PredictionResponse) \<times> CircuitBreaker \<times> 'v world" where
  "predict_body remote instances parameters cb w =
     call cb (make_prediction_request remote (normalize instances) parameters) w"

text \<open>
  The decorator \<^verbatim>\<open>@retry(stop=stop_after_attempt(3), wait=wait_exponential(multiplier=1,
  min=1, max=10), retry=retry_if_exception_type((RequestException, Exception)))\<close> of lines
  224-228 is the tenacity library's. Its loop is modelled as the library documents it:
  attempts are numbered from 1; after a failed attempt \<open>n\<close> the loop stops if
  \<open>n \<ge> max_attempt_number\<close> and otherwise sleeps
  \<^verbatim>\<open>max(max(0, min), min(multiplier * 2 ** (n - 1), max))\<close> seconds and tries again; every
  exception of the model is an \<^verbatim>\<open>Exception\<close>, so every failure is retried; when the
  loop stops, and \<^verbatim>\<open>reraise=True\<close> is not given (it is not), the library raises
  \<^verbatim>\<open>RetryError\<close> wrapping the last attempt.
\<close>

record retry_config =
  max_attempt_number :: nat
  multiplier :: real
  wait_min :: real
  wait_max :: real

definition wait_exponential :: "retry_config \<Rightarrow> nat \<Rightarrow> real" where
  "wait_exponential cfg attempt_number =
     max (max 0 (wait_min cfg)) (min (multiplier cfg * 2 ^ (attempt_number - 1)) (wait_max cfg))"

definition sleep :: "real \<Rightarrow> 'i world \<Rightarrow> 'i world" where
  "sleep seconds w = w\<lparr>now := now w + seconds, sleeps := sleeps w @ [seconds]\<rparr>"

function retrying :: "retry_config \<Rightarrow> nat
    \<Rightarrow> (CircuitBreaker \<Rightarrow> 'i world \<Rightarrow> (exn + 'a) \<times> CircuitBreaker \<times> 'i world)
    \<Rightarrow> CircuitBreaker \<Rightarrow> 'i world \<Rightarrow> (exn + 'a) \<times> CircuitBreaker \<times> 'i world" where
  "retrying cfg attempt_number fn cb w =
     (case fn cb w of
        (Inr result, cb', w') \<Rightarrow> (Inr result, cb', w')
      | (Inl e, cb', w') \<Rightarrow>
          if attempt_number \<ge> max_attempt_number cfg then (Inl (RetryError e), cb', w')
          else retrying cfg (attempt_number + 1) fn cb'
                 (sleep (wait_exponential cfg attempt_number) w'))"
  by pat_completeness auto
termination
  by (relation "measure (\<lambda>(cfg, n, fn, cb, w). max_attempt_number cfg - n)") auto

text \<open>The decorated \<^verbatim>\<open>predict\<close> (lines 224-272).\<close>

definition predict_retry :: retry_config where
  "predict_retry = \<lparr>max_attempt_number = 3, multiplier = 1, wait_min = 1, wait_max = 10\<rparr>"

definition predict :: "('j, 'v) remote \<Rightarrow> 'j instances_arg \<Rightarrow> 'j option
    \<Rightarrow> CircuitBreaker \<Rightarrow> 'v world
    \<Rightarrow> (exn + ('j, 'j option) PredictionResponse) \<times> CircuitBreaker \<times> 'v world" where
  "predict remote instances parameters cb w =
     retrying predict_retry 1 (predict_body remote instances parameters) cb w"








section \<open>VertexAIClient\<close>

text \<open>
  The SDK's \<^verbatim>\<open>endpoint.predict\<close> for one endpoint and one parameter set
  (\<^verbatim>\<open>vertex_ai_client.py\<close>): a step on a state that all calls share, which returns
  the predictions or raises.
\<close>

type_synonym ('i, 'p, 's) endpoint = "'i list \<Rightarrow> 's \<Rightarrow> (exn + 'p list) \<times> 's"

text \<open>
  \<^verbatim>\<open>VertexAIClient.predict\<close> (lines 204-230): one call of the endpoint, whose
  predictions are returned and whose exception is not caught; the log lines are left out.
\<close>

definition vertex_predict :: "('i, 'p, 's) endpoint \<Rightarrow> 'i list \<Rightarrow> 's \<Rightarrow> (exn + 'p list) \<times> 's" where
  "vertex_predict endpoint instances s =
     (case endpoint instances s of
        (Inl e, s') \<Rightarrow> (Inl e, s')
      | (Inr prediction, s') \<Rightarrow> (Inr prediction, s'))"

text \<open>
  \<^verbatim>\<open>predict_batch_parallel\<close> (lines 286-323) makes one task per sub-batch, each
  running \<^verbatim>\<open>predict\<close> in a thread (\<^verbatim>\<open>predict_async\<close>, lines 258-284), and awaits
  \<^verbatim>\<open>asyncio.gather(*tasks, return_exceptions=True)\<close>. The code does not fix the order
  in which the tasks complete: it is the argument \<open>order\<close>, the indices of the tasks in
  the order of their completion (an index out of range, or met a second time, is passed
  over). A task completes by running \<^verbatim>\<open>predict\<close> once on the shared state, and
  \<^verbatim>\<open>gather\<close> keeps its outcome, result or exception, in the slot of the task. An
  exception is one of \<^typ>\<open>exn\<close>, an instance of Python's \<^verbatim>\<open>Exception\<close>, so the
  test \<^verbatim>\<open>isinstance(result, Exception)\<close> of line 315 holds of it; a result is a list
  of predictions.
\<close>

fun run_tasks :: "('i, 'p, 's) endpoint \<Rightarrow> 'i list list \<Rightarrow> nat list
    \<Rightarrow> (exn + 'p list) option list \<Rightarrow> 's \<Rightarrow> (exn + 'p list) option list \<times> 's" where
  "run_tasks endpoint batch_instances [] slots s = (slots, s)"
| "run_tasks endpoint batch_instances (k # order) slots s =
     (if k < length batch_instances \<and> slots ! k = None then
        (case vertex_predict endpoint (batch_instances ! k) s of
           (outcome, s') \<Rightarrow>
             run_tasks endpoint batch_instances order (slots[k := Some outcome]) s')
      else run_tasks endpoint batch_instances order slots s)"

text \<open>
  \<^verbatim>\<open>gather\<close> returns the outcomes in task order once every task has completed; when
  some task never completes it does not return, which is \<open>None\<close>.
\<close>

definition gather :: "('i, 'p, 's) endpoint \<Rightarrow> 'i list list \<Rightarrow> nat list \<Rightarrow> 's
    \<Rightarrow> ((exn + 'p list) list \<times> 's) option" where
  "gather endpoint batch_instances order s =
     (case run_tasks endpoint batch_instances order
             (replicate (length batch_instances) None) s of
        (slots, s') \<Rightarrow> if None \<in> set slots then None else Some (map the slots, s'))"

text \<open>
  The loop of lines 313-319 over the outcomes: an exception becomes the empty list, a
  result is kept. No statement of the function raises.
\<close>

definition predict_batch_parallel :: "('i, 'p, 's) endpoint \<Rightarrow> 'i list list \<Rightarrow> nat list \<Rightarrow> 's
    \<Rightarrow> ((exn + 'p list list) \<times> 's) option" where
  "predict_batch_parallel endpoint batch_instances order s =
     (case gather endpoint batch_instances order s of
        None \<Rightarrow> None
      | Some (results, s') \<Rightarrow>
          Some (Inr (map (\<lambda>result. case result of Inl e \<Rightarrow> [] | Inr r \<Rightarrow> r) results), s'))"

section \<open>Sequences of calls\<close>

text \<open>
  A caller that uses one breaker for a sequence of calls: each entry gives what the clock
  reads when the call is made and the function the call wraps. Time may pass between the
  calls in any way; the results of the calls are dropped.
\<close>

fun call_seq :: "CircuitBreaker \<Rightarrow> (real \<times> ('i, 'a) action) list \<Rightarrow> 'i world
    \<Rightarrow> CircuitBreaker \<times> 'i world" where
  "call_seq cb [] w = (cb, w)"
| "call_seq cb ((t, func) # rest) w =
     (case call cb func (w\<lparr>now := t\<rparr>) of (r, cb', w') \<Rightarrow> call_seq cb' rest w')"

text \<open>Concrete worlds and wrapped functions, used to run the definitions.\<close>

definition world0 :: "unit world" where
  "world0 = \<lparr>now = 0, requests = [], sleeps = []\<rparr>"

definition boom :: "(unit, nat) action" where
  "boom w = (Inl (Exception ''boom''), w\<lparr>requests := requests w @ [[()]]\<rparr>)"

definition probe :: "(unit, nat) action" where
  "probe w = (Inr 7, w\<lparr>requests := requests w @ [[()]]\<rparr>)"

definition always_fails :: "string \<Rightarrow> (unit, unit) remote" where
  "always_fails msg =
     \<lparr>ParseDict = Inr, client_predict = (\<lambda>w instances parameters. (0.5, Inl msg)),
      MessageToDict = Inr\<rparr>"

definition open_breaker :: CircuitBreaker where
  "open_breaker = \<lparr>failure_threshold = 5, recovery_timeout = 60,
     expected_exception = (\<lambda>e. True), failure_count = 5,
     last_failure_time = Some 0, state = OPEN\<rparr>"




text \<open>
  A breaker filter that matches \<^verbatim>\<open>QuotaExceededError\<close> only, and a wrapped function
  that raises it.
\<close>

definition only_quota :: "exn \<Rightarrow> bool" where
  "only_quota e = (case e of QuotaExceededError m \<Rightarrow> True | _ \<Rightarrow> False)"

definition quota_boom :: "(unit, nat) action" where
  "quota_boom w = (Inl (QuotaExceededError ''quota''), w\<lparr>requests := requests w @ [[()]]\<rparr>)"

text \<open>
  An endpoint that fails on the sub-batch \<^verbatim>\<open>[2]\<close>, multiplies the other instances by
  10, and keeps the sub-batches in the order it received them.
\<close>

definition flaky :: "(nat, nat, nat list list) endpoint" where
  "flaky instances s =
     (if instances = [2] then Inl (Exception ''boom'') else Inr (map (\<lambda>x. 10 * x) instances),
      s @ [instances])"

section \<open>Theorems\<close>

lemma lower_open_message:
  "lower ''Circuit breaker is OPEN'' = ''circuit breaker is open''"
  by code_simp

text \<open>
  C2. A call made while the breaker is Open, with the last failure at time \<open>lf\<close>: if less
  than \<open>recovery_timeout\<close> has passed since \<open>lf\<close>, the call is rejected at once with
  \<^verbatim>\<open>ModelUnavailableError("Circuit breaker is OPEN")\<close> (the spec's ServiceUnavailable /
  CircuitOpen kind; lower-cased the message reads "circuit breaker is open"), whatever the
  wrapped function is, and neither the breaker nor the world changes, so the wrapped
  function has not run. If at least \<open>recovery_timeout\<close> has passed, the breaker is set to
  HalfOpen and the wrapped function runs: the call ends with the function's own result or
  exception and in the world the function leaves.
\<close>

theorem open_call_gate:
  assumes "state cb = OPEN" and "last_failure_time cb = Some lf"
  shows "(now w - lf < of_int (recovery_timeout cb) \<longrightarrow>
            call cb func w = (Inl (ModelUnavailableError ''Circuit breaker is OPEN''), cb, w)
            \<and> lower ''Circuit breaker is OPEN'' = ''circuit breaker is open'')
       \<and> (now w - lf \<ge> of_int (recovery_timeout cb) \<longrightarrow>
            call cb func w = call_try (cb\<lparr>state := HALF_OPEN\<rparr>) func w
            \<and> fst (call cb func w) = fst (func w)
            \<and> snd (snd (call cb func w)) = snd (func w))"
  using assms
  by (auto simp: call_def should_attempt_reset_def call_try_def lower_open_message
           split: prod.splits sum.splits)

theorem open_call_gate_witness:
  "call \<lparr>failure_threshold = 5, recovery_timeout = 60, expected_exception = (\<lambda>e. True),
          failure_count = 5, last_failure_time = Some 100, state = OPEN\<rparr>
        (\<lambda>w. (Inr (7::nat), w\<lparr>requests := requests w @ [[()]]\<rparr>))
        \<lparr>now = 130, requests = [], sleeps = []\<rparr>
     = (Inl (ModelUnavailableError ''Circuit breaker is OPEN''),
        \<lparr>failure_threshold = 5, recovery_timeout = 60, expected_exception = (\<lambda>e. True),
          failure_count = 5, last_failure_time = Some 100, state = OPEN\<rparr>,
        \<lparr>now = 130, requests = [], sleeps = []\<rparr>)
   \<and> fst (call \<lparr>failure_threshold = 5, recovery_timeout = 60, expected_exception = (\<lambda>e. True),
          failure_count = 5, last_failure_time = Some 100, state = OPEN\<rparr>
        (\<lambda>w. (Inr (7::nat), w\<lparr>requests := requests w @ [[()]]\<rparr>))
        \<lparr>now = 160, requests = [], sleeps = []\<rparr>) = Inr 7
   \<and> requests (snd (snd (call \<lparr>failure_threshold = 5, recovery_timeout = 60,
          expected_exception = (\<lambda>e. True),
          failure_count = 5, last_failure_time = Some 100, state = OPEN\<rparr>
        (\<lambda>w. (Inr (7::nat), w\<lparr>requests := requests w @ [[()]]\<rparr>))
        \<lparr>now = 160, requests = [], sleeps = []\<rparr>))) = [[()]]"
  using open_call_gate [of "\<lparr>failure_threshold = 5, recovery_timeout = 60,
          expected_exception = (\<lambda>e. True),
          failure_count = 5, last_failure_time = Some 100, state = OPEN\<rparr>" 100
          "\<lparr>now = 130, requests = [], sleeps = []\<rparr>"
          "\<lambda>w. (Inr (7::nat), w\<lparr>requests := requests w @ [[()]]\<rparr>)"]
        open_call_gate [of "\<lparr>failure_threshold = 5, recovery_timeout = 60,
          expected_exception = (\<lambda>e. True),
          failure_count = 5, last_failure_time = Some 100, state = OPEN\<rparr>" 100
          "\<lparr>now = 160, requests = [], sleeps = []\<rparr>"
          "\<lambda>w. (Inr (7::nat), w\<lparr>requests := requests w @ [[()]]\<rparr>)"]
  by (simp add: call_try_def)

subsection \<open>The breaker over sequences of calls\<close>

lemma call_config:
  "failure_threshold (fst (snd (call cb func w))) = failure_threshold cb"
  "recovery_timeout (fst (snd (call cb func w))) = recovery_timeout cb"
  "expected_exception (fst (snd (call cb func w))) = expected_exception cb"
  by (auto simp: call_def call_try_def on_failure_def on_success_def Let_def
           split: prod.splits sum.splits)

lemma call_inv:
  assumes "state cb \<noteq> CLOSED \<longrightarrow>
             failure_threshold cb \<le> failure_count cb \<and> last_failure_time cb \<noteq> None"
  shows "state (fst (snd (call cb func w))) \<noteq> CLOSED \<longrightarrow>
           failure_threshold (fst (snd (call cb func w))) \<le> failure_count (fst (snd (call cb func w)))
           \<and> last_failure_time (fst (snd (call cb func w))) \<noteq> None"
  using assms
  by (auto simp: call_def call_try_def on_failure_def on_success_def Let_def
           split: prod.splits sum.splits if_splits)

lemma call_seq_inv:
  assumes "state cb \<noteq> CLOSED \<longrightarrow>
             failure_threshold cb \<le> failure_count cb \<and> last_failure_time cb \<noteq> None"
  shows "state (fst (call_seq cb cs w)) \<noteq> CLOSED \<longrightarrow>
           failure_threshold cb \<le> failure_count (fst (call_seq cb cs w))
           \<and> last_failure_time (fst (call_seq cb cs w)) \<noteq> None"
  using assms
proof (induction cs arbitrary: cb w)
  case Nil
  then show ?case by simp
next
  case (Cons c cs)
  obtain t func where c: "c = (t, func)" by (cases c)
  obtain r cb' w' where step: "call cb func (w\<lparr>now := t\<rparr>) = (r, cb', w')"
    by (cases "call cb func (w\<lparr>now := t\<rparr>)")
  have cfg: "failure_threshold cb' = failure_threshold cb"
    using call_config(1) [of cb func "w\<lparr>now := t\<rparr>"] step by simp
  have "state cb' \<noteq> CLOSED \<longrightarrow>
          failure_threshold cb' \<le> failure_count cb' \<and> last_failure_time cb' \<noteq> None"
    using call_inv [OF Cons.prems, of func "w\<lparr>now := t\<rparr>"] step by simp
  from Cons.IH [OF this, of w'] show ?case
    by (simp add: c step cfg)
qed

lemma call_seq_config_all:
  "failure_threshold (fst (call_seq cb cs w)) = failure_threshold cb
   \<and> recovery_timeout (fst (call_seq cb cs w)) = recovery_timeout cb
   \<and> expected_exception (fst (call_seq cb cs w)) = expected_exception cb"
proof (induction cs arbitrary: cb w)
  case Nil
  show ?case by simp
next
  case (Cons c cs)
  obtain t func where c: "c = (t, func)" by (cases c)
  obtain r cb' w' where step: "call cb func (w\<lparr>now := t\<rparr>) = (r, cb', w')"
    by (cases "call cb func (w\<lparr>now := t\<rparr>)")
  have cfg: "failure_threshold cb' = failure_threshold cb"
     "recovery_timeout cb' = recovery_timeout cb"
     "expected_exception cb' = expected_exception cb"
    using call_config [of cb func "w\<lparr>now := t\<rparr>"] step by simp_all
  show ?case using Cons.IH [of cb' w'] by (simp add: c step cfg)
qed

lemmas call_seq_config =
  call_seq_config_all [THEN conjunct1]
  call_seq_config_all [THEN conjunct2, THEN conjunct1]
  call_seq_config_all [THEN conjunct2, THEN conjunct2]

lemmas breaker_defs = CircuitBreaker_init_def call_def call_try_def on_failure_def
  on_success_def should_attempt_reset_def Let_def world0_def boom_def probe_def

text \<open>
  C10. In every state the breaker reaches from its initial Closed state by any sequence of
  calls (any wrapped functions, any clock readings, any \<^verbatim>\<open>expected_exception\<close>): if
  the state is Open or HalfOpen, the failure counter is at least \<open>failure_threshold\<close> and
  the last-failure timestamp is set. The same holds of the HalfOpen state a call sets
  before it runs a trial, and so a failure in HalfOpen always goes back to Open.
\<close>

theorem breaker_invariant:
  assumes "cb = fst (call_seq (CircuitBreaker_init th tm ex) cs w)"
  shows "(state cb = OPEN \<or> state cb = HALF_OPEN \<longrightarrow>
            failure_count cb \<ge> failure_threshold cb \<and> last_failure_time cb \<noteq> None)
       \<and> (state cb = OPEN \<longrightarrow>
            failure_count (cb\<lparr>state := HALF_OPEN\<rparr>) \<ge> failure_threshold (cb\<lparr>state := HALF_OPEN\<rparr>)
            \<and> last_failure_time (cb\<lparr>state := HALF_OPEN\<rparr>) \<noteq> None
            \<and> state (on_failure (cb\<lparr>state := HALF_OPEN\<rparr>) t) = OPEN)
       \<and> (state cb = HALF_OPEN \<longrightarrow> state (on_failure cb t) = OPEN)"
proof -
  let ?c0 = "CircuitBreaker_init th tm ex"
  have "state ?c0 \<noteq> CLOSED \<longrightarrow>
          failure_threshold ?c0 \<le> failure_count ?c0 \<and> last_failure_time ?c0 \<noteq> None"
    by (simp add: CircuitBreaker_init_def)
  from call_seq_inv [OF this, of cs w]
  have inv: "state cb \<noteq> CLOSED \<longrightarrow> th \<le> failure_count cb \<and> last_failure_time cb \<noteq> None"
    using assms by (simp add: CircuitBreaker_init_def)
  have cfg: "failure_threshold cb = th"
    using call_seq_config(1) [of ?c0 cs w] assms by (simp add: CircuitBreaker_init_def)
  show ?thesis using inv cfg
    by (auto simp: on_failure_def Let_def)
qed

theorem breaker_invariant_witness:
  "state (fst (call_seq (CircuitBreaker_init 2 60 (\<lambda>e. True)) [(0, boom), (1, boom)] world0)) = OPEN
   \<and> failure_count (fst (call_seq (CircuitBreaker_init 2 60 (\<lambda>e. True)) [(0, boom), (1, boom)] world0)) = 2
   \<and> last_failure_time (fst (call_seq (CircuitBreaker_init 2 60 (\<lambda>e. True)) [(0, boom), (1, boom)] world0)) = Some 1
   \<and> state (on_failure ((fst (call_seq (CircuitBreaker_init 2 60 (\<lambda>e. True)) [(0, boom), (1, boom)] world0))\<lparr>state := HALF_OPEN\<rparr>) 100) = OPEN"
  using breaker_invariant [of "fst (call_seq (CircuitBreaker_init 2 60 (\<lambda>e. True)) [(0, boom), (1, boom)] world0)"
          2 60 "\<lambda>e. True" "[(0, boom), (1, boom)]" world0 100]
  by (simp add: breaker_defs)

lemma failing_call_step:
  assumes "case fst (func w) of Inl e \<Rightarrow> expected_exception cb e | Inr r \<Rightarrow> False"
    and "(state cb = OPEN \<and> failure_threshold cb \<le> failure_count cb)
         \<or> (state cb = CLOSED \<and> n \<le> failure_count cb
             \<and> (0 < n \<longrightarrow> failure_count cb < failure_threshold cb))"
    and "cb' = fst (snd (call cb func w))"
    and "0 \<le> n"
  shows "(state cb' = OPEN \<and> failure_threshold cb \<le> failure_count cb')
         \<or> (state cb' = CLOSED \<and> n + 1 \<le> failure_count cb'
             \<and> failure_count cb' < failure_threshold cb)"
  using assms
  by (auto simp: call_def call_try_def on_failure_def on_success_def Let_def
           split: prod.splits sum.splits if_splits)

lemma failing_call_seq:
  assumes "\<forall>(t, func) \<in> set cs. \<forall>w.
             case fst (func w) of Inl e \<Rightarrow> expected_exception cb e | Inr r \<Rightarrow> False"
    and "(state cb = OPEN \<and> failure_threshold cb \<le> failure_count cb)
         \<or> (state cb = CLOSED \<and> n \<le> failure_count cb
             \<and> (0 < n \<longrightarrow> failure_count cb < failure_threshold cb))"
    and "0 \<le> n"
  shows "(state (fst (call_seq cb cs w0)) = OPEN
           \<and> failure_threshold cb \<le> failure_count (fst (call_seq cb cs w0)))
         \<or> (state (fst (call_seq cb cs w0)) = CLOSED
             \<and> n + int (length cs) \<le> failure_count (fst (call_seq cb cs w0))
             \<and> (0 < n + int (length cs) \<longrightarrow>
                  failure_count (fst (call_seq cb cs w0)) < failure_threshold cb))"
  using assms
proof (induction cs arbitrary: cb w0 n)
  case Nil
  then show ?case by simp
next
  case (Cons c cs)
  obtain t func where c: "c = (t, func)" by (cases c)
  obtain r cb' w' where step: "call cb func (w0\<lparr>now := t\<rparr>) = (r, cb', w')"
    by (cases "call cb func (w0\<lparr>now := t\<rparr>)")
  have cfg: "failure_threshold cb' = failure_threshold cb"
            "expected_exception cb' = expected_exception cb"
    using call_config [of cb func "w0\<lparr>now := t\<rparr>"] step by simp_all
  have f1: "case fst (func (w0\<lparr>now := t\<rparr>)) of Inl e \<Rightarrow> expected_exception cb e | Inr r \<Rightarrow> False"
    using Cons.prems(1) c by auto
  have s1: "(state cb' = OPEN \<and> failure_threshold cb \<le> failure_count cb')
         \<or> (state cb' = CLOSED \<and> n + 1 \<le> failure_count cb'
             \<and> failure_count cb' < failure_threshold cb)"
    using failing_call_step [where func = func and w = "w0\<lparr>now := t\<rparr>" and cb = cb
            and n = n and cb' = cb'] f1 Cons.prems(2,3) step
    by simp
  have rest: "\<forall>(t, func) \<in> set cs. \<forall>w.
             case fst (func w) of Inl e \<Rightarrow> expected_exception cb' e | Inr r \<Rightarrow> False"
    using Cons.prems(1) unfolding cfg(2) by simp
  have s2: "(state cb' = OPEN \<and> failure_threshold cb' \<le> failure_count cb')
         \<or> (state cb' = CLOSED \<and> n + 1 \<le> failure_count cb'
             \<and> (0 < n + 1 \<longrightarrow> failure_count cb' < failure_threshold cb'))"
    using s1 cfg by auto
  have "0 \<le> n + 1" using Cons.prems(3) by simp
  from Cons.IH [OF rest s2 this, of w'] show ?case
    by (simp add: c step cfg) linarith
qed

text \<open>
  C3, amended. Starting from a Closed breaker with a counter that is not negative and a
  positive threshold: a failure of the wrapped call that \<^verbatim>\<open>expected_exception\<close>
  matches adds one to the counter, records the time, and opens the breaker as soon as the
  counter has reached \<open>failure_threshold\<close>; a failure that \<^verbatim>\<open>expected_exception\<close>
  does not match passes through and leaves the breaker as it was. After any
  N \<ge> \<open>failure_threshold\<close> consecutive calls that fail with a matched exception the
  breaker is Open with a last-failure time \<open>lf\<close>; the next call is rejected without
  running the wrapped function when it is made less than \<open>recovery_timeout\<close> after \<open>lf\<close>,
  and is run as a HalfOpen trial (the wrapped function runs) when it is made later.
\<close>

theorem consecutive_failures_open:
  assumes closed: "state cb = CLOSED"
    and count: "0 \<le> failure_count cb"
    and pos: "0 < failure_threshold cb"
    and fails: "\<forall>(t, func) \<in> set cs. \<forall>w.
                  case fst (func w) of Inl e \<Rightarrow> expected_exception cb e | Inr r \<Rightarrow> False"
    and many: "failure_threshold cb \<le> int (length cs)"
    and after: "cb' = fst (call_seq cb cs w0)"
  shows "(\<forall>func w e w'. func w = (Inl e, w') \<and> expected_exception cb e \<longrightarrow>
            call cb func w =
              (Inl e,
               cb\<lparr>failure_count := failure_count cb + 1, last_failure_time := Some (now w'),
                  state := (if failure_threshold cb \<le> failure_count cb + 1 then OPEN else CLOSED)\<rparr>,
               w'))
       \<and> (\<forall>func w e w'. func w = (Inl e, w') \<and> \<not> expected_exception cb e \<longrightarrow>
            call cb func w = (Inl e, cb, w'))
       \<and> state cb' = OPEN
       \<and> (\<exists>lf. last_failure_time cb' = Some lf
            \<and> (\<forall>func w. now w - lf < of_int (recovery_timeout cb') \<longrightarrow>
                  call cb' func w =
                    (Inl (ModelUnavailableError ''Circuit breaker is OPEN''), cb', w))
            \<and> (\<forall>func w. now w - lf \<ge> of_int (recovery_timeout cb') \<longrightarrow>
                  call cb' func w = call_try (cb'\<lparr>state := HALF_OPEN\<rparr>) func w
                  \<and> fst (call cb' func w) = fst (func w)
                  \<and> snd (snd (call cb' func w)) = snd (func w)))"
proof -
  have one: "\<forall>func w e w'. func w = (Inl e, w') \<and> expected_exception cb e \<longrightarrow>
            call cb func w =
              (Inl e,
               cb\<lparr>failure_count := failure_count cb + 1, last_failure_time := Some (now w'),
                  state := (if failure_threshold cb \<le> failure_count cb + 1 then OPEN else CLOSED)\<rparr>,
               w')"
    using closed by (auto simp: call_def call_try_def on_failure_def Let_def)
  have other: "\<forall>func w e w'. func w = (Inl e, w') \<and> \<not> expected_exception cb e \<longrightarrow>
            call cb func w = (Inl e, cb, w')"
    using closed by (auto simp: call_def call_try_def)
  have start: "(state cb = OPEN \<and> failure_threshold cb \<le> failure_count cb)
         \<or> (state cb = CLOSED \<and> 0 \<le> failure_count cb
             \<and> ((0::int) < 0 \<longrightarrow> failure_count cb < failure_threshold cb))"
    using closed count by simp
  have opened: "state cb' = OPEN"
    using failing_call_seq [OF fails start, of w0] many pos after by auto
  have "state cb \<noteq> CLOSED \<longrightarrow>
          failure_threshold cb \<le> failure_count cb \<and> last_failure_time cb \<noteq> None"
    using closed by simp
  from call_seq_inv [OF this, of cs w0] opened after
  obtain lf where lf: "last_failure_time cb' = Some lf" by auto
  have early: "\<forall>func w. now w - lf < of_int (recovery_timeout cb') \<longrightarrow>
          call cb' func w = (Inl (ModelUnavailableError ''Circuit breaker is OPEN''), cb', w)"
    using opened lf by (auto simp: call_def should_attempt_reset_def)
  have late: "\<forall>func w. now w - lf \<ge> of_int (recovery_timeout cb') \<longrightarrow>
                  call cb' func w = call_try (cb'\<lparr>state := HALF_OPEN\<rparr>) func w
                  \<and> fst (call cb' func w) = fst (func w)
                  \<and> snd (snd (call cb' func w)) = snd (func w)"
    using opened lf
    by (auto simp: call_def should_attempt_reset_def call_try_def
             split: prod.splits sum.splits)
  from one other opened lf early late show ?thesis by blast
qed

theorem consecutive_failures_open_witness:
  "state (fst (call_seq (CircuitBreaker_init 2 60 (\<lambda>e. True)) [(0, boom), (1, boom), (2, boom)] world0)) = OPEN
   \<and> call (fst (call_seq (CircuitBreaker_init 2 60 (\<lambda>e. True)) [(0, boom), (1, boom), (2, boom)] world0))
        probe (world0\<lparr>now := 30\<rparr>)
      = (Inl (ModelUnavailableError ''Circuit breaker is OPEN''),
         \<lparr>failure_threshold = 2, recovery_timeout = 60, expected_exception = (\<lambda>e. True),
           failure_count = 2, last_failure_time = Some 1, state = OPEN\<rparr>,
         world0\<lparr>now := 30\<rparr>)
   \<and> fst (call (fst (call_seq (CircuitBreaker_init 2 60 (\<lambda>e. True)) [(0, boom), (1, boom), (2, boom)] world0))
        probe (world0\<lparr>now := 61\<rparr>)) = Inr 7
   \<and> call (CircuitBreaker_init 2 60 (\<lambda>e. True)) boom world0
      = (Inl (Exception ''boom''),
         \<lparr>failure_threshold = 2, recovery_timeout = 60, expected_exception = (\<lambda>e. True),
           failure_count = 1, last_failure_time = Some 0, state = CLOSED\<rparr>,
         world0\<lparr>requests := [[()]]\<rparr>)"
  using consecutive_failures_open [of "CircuitBreaker_init 2 60 (\<lambda>e. True)"
          "[(0, boom), (1, boom), (2, boom)]"
          "fst (call_seq (CircuitBreaker_init 2 60 (\<lambda>e. True)) [(0, boom), (1, boom), (2, boom)] world0)"
          world0]
  by (simp add: breaker_defs)

text \<open>
  C3 as the spec states it, without the condition on time, fails: with threshold 1 and
  timeout 60, one failure at time 0 opens the breaker, and the second call, made at time
  100, runs the wrapped function and closes the breaker again.
\<close>

theorem consecutive_failures_counterexample:
  "state (fst (call_seq (CircuitBreaker_init 1 60 (\<lambda>e. True)) [(0, boom)] world0)) = OPEN
   \<and> call (fst (call_seq (CircuitBreaker_init 1 60 (\<lambda>e. True)) [(0, boom)] world0)) probe
        (snd (call_seq (CircuitBreaker_init 1 60 (\<lambda>e. True)) [(0, boom)] world0)\<lparr>now := 100\<rparr>)
      = (Inr 7,
         \<lparr>failure_threshold = 1, recovery_timeout = 60, expected_exception = (\<lambda>e. True),
           failure_count = 0, last_failure_time = Some 0, state = CLOSED\<rparr>,
         \<lparr>now = 100, requests = [[()], [()]], sleeps = []\<rparr>)"
  by (simp add: breaker_defs)

text \<open>
  C4, amended. A trial call, in a state the breaker reaches from its initial state: the
  breaker is HalfOpen, or Open with the recovery timeout over (the call then sets
  HalfOpen). If the wrapped call returns, the counter is 0 and the breaker Closed. If it
  fails with an exception that \<^verbatim>\<open>expected_exception\<close> matches, the counter is one more,
  the time of the failure is recorded, and the breaker is Open again, whatever the
  counter was. If it fails with an exception that \<^verbatim>\<open>expected_exception\<close> does not
  match, the exception passes through and the breaker stays HalfOpen, counter and
  timestamp unchanged.
\<close>

theorem half_open_trial:
  assumes reach: "cb = fst (call_seq (CircuitBreaker_init th tm ex) cs w0)"
      and trial: "state cb = HALF_OPEN \<or> (state cb = OPEN \<and> should_attempt_reset cb (now w))"
  shows "(\<forall>r w'. func w = (Inr r, w') \<longrightarrow>
            call cb func w = (Inr r, cb\<lparr>failure_count := 0, state := CLOSED\<rparr>, w'))
       \<and> (\<forall>e w'. func w = (Inl e, w') \<and> expected_exception cb e \<longrightarrow>
            call cb func w =
              (Inl e,
               cb\<lparr>failure_count := failure_count cb + 1, last_failure_time := Some (now w'),
                  state := OPEN\<rparr>,
               w'))
       \<and> (\<forall>e w'. func w = (Inl e, w') \<and> \<not> expected_exception cb e \<longrightarrow>
            call cb func w = (Inl e, cb\<lparr>state := HALF_OPEN\<rparr>, w'))"
proof -
  let ?c0 = "CircuitBreaker_init th tm ex"
  have "state ?c0 \<noteq> CLOSED \<longrightarrow>
          failure_threshold ?c0 \<le> failure_count ?c0 \<and> last_failure_time ?c0 \<noteq> None"
    by (simp add: CircuitBreaker_init_def)
  from call_seq_inv [OF this, of cs w0]
  have inv: "state cb \<noteq> CLOSED \<longrightarrow> failure_threshold ?c0 \<le> failure_count cb"
    using reach by simp
  have cfg: "failure_threshold cb = failure_threshold ?c0"
    using call_seq_config(1) [of ?c0 cs w0] reach by simp
  show ?thesis using inv cfg trial
    by (auto simp: call_def call_try_def on_failure_def on_success_def Let_def)
qed

theorem half_open_trial_witness:
  "call (fst (call_seq (CircuitBreaker_init 2 60 (\<lambda>e. True)) [(0, boom), (1, boom)] world0))
        probe (world0\<lparr>now := 100\<rparr>)
      = (Inr 7,
         \<lparr>failure_threshold = 2, recovery_timeout = 60, expected_exception = (\<lambda>e. True),
           failure_count = 0, last_failure_time = Some 1, state = CLOSED\<rparr>,
         \<lparr>now = 100, requests = [[()]], sleeps = []\<rparr>)
   \<and> call (fst (call_seq (CircuitBreaker_init 2 60 (\<lambda>e. True)) [(0, boom), (1, boom)] world0))
        boom (world0\<lparr>now := 100\<rparr>)
      = (Inl (Exception ''boom''),
         \<lparr>failure_threshold = 2, recovery_timeout = 60, expected_exception = (\<lambda>e. True),
           failure_count = 3, last_failure_time = Some 100, state = OPEN\<rparr>,
         \<lparr>now = 100, requests = [[()]], sleeps = []\<rparr>)
   \<and> call (fst (call_seq (CircuitBreaker_init 1 60 only_quota) [(0, quota_boom)] world0))
        boom (world0\<lparr>now := 100\<rparr>)
      = (Inl (Exception ''boom''),
         \<lparr>failure_threshold = 1, recovery_timeout = 60, expected_exception = only_quota,
           failure_count = 1, last_failure_time = Some 0, state = HALF_OPEN\<rparr>,
         \<lparr>now = 100, requests = [[()]], sleeps = []\<rparr>)"
  using half_open_trial [of "fst (call_seq (CircuitBreaker_init 2 60 (\<lambda>e. True)) [(0, boom), (1, boom)] world0)"
          2 60 "\<lambda>e. True" "[(0, boom), (1, boom)]" world0 "world0\<lparr>now := 100\<rparr>" probe]
        half_open_trial [of "fst (call_seq (CircuitBreaker_init 2 60 (\<lambda>e. True)) [(0, boom), (1, boom)] world0)"
          2 60 "\<lambda>e. True" "[(0, boom), (1, boom)]" world0 "world0\<lparr>now := 100\<rparr>" boom]
        half_open_trial [of "fst (call_seq (CircuitBreaker_init 1 60 only_quota) [(0, quota_boom)] world0)"
          1 60 only_quota "[(0, quota_boom)]" world0 "world0\<lparr>now := 100\<rparr>" boom]
  by (simp add: breaker_defs quota_boom_def only_quota_def)

text \<open>
  C4 as the spec states it (any failure while HalfOpen reopens the breaker) fails for a
  breaker built with a narrower \<^verbatim>\<open>expected_exception\<close>: with threshold 1, timeout 60
  and a filter that matches \<^verbatim>\<open>QuotaExceededError\<close> only, a quota failure at time 0
  opens the breaker; the trial made at time 100 fails with another exception, and the
  breaker is left HalfOpen, the counter still 1 and the timestamp still 0.
\<close>

theorem half_open_unmatched_counterexample:
  "state (fst (call_seq (CircuitBreaker_init 1 60 only_quota) [(0, quota_boom)] world0)) = OPEN
   \<and> \<not> only_quota (Exception ''boom'')
   \<and> call (fst (call_seq (CircuitBreaker_init 1 60 only_quota) [(0, quota_boom)] world0))
        boom (world0\<lparr>now := 100\<rparr>)
      = (Inl (Exception ''boom''),
         \<lparr>failure_threshold = 1, recovery_timeout = 60, expected_exception = only_quota,
           failure_count = 1, last_failure_time = Some 0, state = HALF_OPEN\<rparr>,
         \<lparr>now = 100, requests = [[()]], sleeps = []\<rparr>)"
  by (simp add: breaker_defs quota_boom_def only_quota_def)

subsection \<open>Retry and predict\<close>

declare retrying.simps [simp del]

lemma wait_predict_retry:
  "1 \<le> n \<Longrightarrow> wait_exponential predict_retry n = min 10 (1 * 2 ^ (n - 1))"
proof -
  assume "1 \<le> n"
  have "(1::real) \<le> 2 ^ (n - 1)" by simp
  then show ?thesis
    by (simp add: wait_exponential_def predict_retry_def max_def min_def)
qed

lemma predict_unrolled:
  "predict remote instances parameters cb w =
     (case predict_body remote instances parameters cb w of
        (Inr r, cb1, w1) \<Rightarrow> (Inr r, cb1, w1)
      | (Inl e1, cb1, w1) \<Rightarrow>
          (case predict_body remote instances parameters cb1
                  (sleep (min 10 (1 * 2 ^ (1 - 1))) w1) of
             (Inr r, cb2, w2) \<Rightarrow> (Inr r, cb2, w2)
           | (Inl e2, cb2, w2) \<Rightarrow>
               (case predict_body remote instances parameters cb2
                       (sleep (min 10 (1 * 2 ^ (2 - 1))) w2) of
                  (Inr r, cb3, w3) \<Rightarrow> (Inr r, cb3, w3)
                | (Inl e3, cb3, w3) \<Rightarrow> (Inl (RetryError e3), cb3, w3))))"
proof -
  have m: "max_attempt_number predict_retry = 3" by (simp add: predict_retry_def)
  have w1: "wait_exponential predict_retry 1 = min 10 (1 * 2 ^ (1 - 1))"
    using wait_predict_retry [of 1] by simp
  have w2: "wait_exponential predict_retry 2 = min 10 (1 * 2 ^ (2 - 1))"
    using wait_predict_retry [of 2] by simp
  have three: "Suc (Suc 1) = 3" by simp
  show ?thesis
    unfolding predict_def
    apply (subst retrying.simps)
    apply (subst retrying.simps)
    apply (subst retrying.simps)
    apply (simp only: m w1 w2 one_add_one Suc_1 numeral_2_eq_2 [symmetric])
    apply (simp add: m split: prod.splits sum.splits)
    done
qed

lemma sleep_fields:
  "requests (sleep d w) = requests w" "sleeps (sleep d w) = sleeps w @ [d]"
  "now (sleep d w) = now w + d"
  by (simp_all add: sleep_def)

lemma make_prediction_request_world:
  "sleeps (snd (make_prediction_request remote insts ps w)) = sleeps w"
  "length (requests w) \<le> length (requests (snd (make_prediction_request remote insts ps w)))"
  "length (requests (snd (make_prediction_request remote insts ps w))) \<le> length (requests w) + 1"
  "\<not> isl (fst (make_prediction_request remote insts ps w)) \<longrightarrow>
     length (requests (snd (make_prediction_request remote insts ps w))) = length (requests w) + 1"
  by (auto simp: make_prediction_request_def Let_def split: prod.splits sum.splits)



lemma predict_body_world:
  assumes "predict_body remote instances parameters cb w = (r, cb', w')"
  shows "sleeps w' = sleeps w \<and> length (requests w') \<le> length (requests w) + 1"
proof -
  let ?f = "make_prediction_request remote (normalize instances) parameters"
  obtain r0 w0 where f: "?f w = (r0, w0)" by (cases "?f w")
  have s0: "sleeps w0 = sleeps w"
    and q0: "length (requests w0) \<le> length (requests w) + 1"
    using make_prediction_request_world [where remote = remote and insts = "normalize instances"
            and ps = parameters and w = w] f
    by simp_all
  show ?thesis
    using assms f s0 q0
    by (auto simp: predict_body_def call_def call_try_def split: if_splits sum.splits)
qed

lemma predict_tries:
  assumes "predict remote instances parameters cb w = (r, cb', w')"
  shows "\<exists>k. 1 \<le> k \<and> k \<le> 3
           \<and> sleeps w' = sleeps w @ map (\<lambda>n. min 10 (1 * 2 ^ (n - 1))) [1..<k]
           \<and> length (requests w') \<le> length (requests w) + k"
proof -
  let ?b = "predict_body remote instances parameters"
  obtain r1 cb1 w1 where b1: "?b cb w = (r1, cb1, w1)" by (cases "?b cb w")
  note p1 = predict_body_world [OF b1]
  let ?s1 = "sleep (min 10 (1 * 2 ^ (1 - 1))) w1"
  obtain r2 cb2 w2 where b2: "?b cb1 ?s1 = (r2, cb2, w2)" by (cases "?b cb1 ?s1")
  note p2 = predict_body_world [OF b2]
  let ?s2 = "sleep (min 10 (1 * 2 ^ (2 - 1))) w2"
  obtain r3 cb3 w3 where b3: "?b cb2 ?s2 = (r3, cb3, w3)" by (cases "?b cb2 ?s2")
  note p3 = predict_body_world [OF b3]
  have l1: "[1..<1] = ([]::nat list)" and l2: "[1..<2] = [1::nat]" and l3: "[1..<3] = [1::nat, 2]"
    by (simp_all add: upt_rec)
  show ?thesis
  proof (cases r1)
    case (Inr x)
    then have "w' = w1" using assms b1 by (simp add: predict_unrolled)
    then show ?thesis using p1 l1 by (intro exI [of _ 1]) simp
  next
    case e1: (Inl e1)
    show ?thesis
    proof (cases r2)
      case (Inr x)
      then have "w' = w2" using assms b1 b2 e1 by (simp add: predict_unrolled)
      then show ?thesis using p1 p2 l2 by (intro exI [of _ 2]) (simp add: sleep_fields)
    next
      case e2: (Inl e2)
      have "w' = w3" using assms b1 b2 b3 e1 e2
        by (simp add: predict_unrolled split: sum.splits)
      then show ?thesis using p1 p2 p3 l3 by (intro exI [of _ 3]) (simp add: sleep_fields)
    qed
  qed
qed

text \<open>
  C6. For every call of \<^verbatim>\<open>predict\<close>: the retry policy stops after attempt 3; the wait
  after a failed attempt \<open>n\<close> is \<open>min 10 (1 * 2 ^ (n - 1))\<close> seconds (base wait 1, maximum
  wait 10); the call is the first attempt, then only if it failed a wait of 1 second and
  the second attempt, then only if that failed a wait of 2 seconds and the third attempt,
  and nothing after it: an attempt that returns ends the call with its result. So there
  are \<open>k \<le> 3\<close> attempts, the waits are those of attempts \<open>1..k-1\<close>, and the SDK is called
  at most \<open>k\<close> times.
\<close>

theorem predict_retry_policy:
  "max_attempt_number predict_retry = 3
   \<and> (\<forall>n. 1 \<le> n \<longrightarrow> wait_exponential predict_retry n = min 10 (1 * 2 ^ (n - 1)))
   \<and> predict remote instances parameters cb w =
     (case predict_body remote instances parameters cb w of
        (Inr r, cb1, w1) \<Rightarrow> (Inr r, cb1, w1)
      | (Inl e1, cb1, w1) \<Rightarrow>
          (case predict_body remote instances parameters cb1
                  (sleep (min 10 (1 * 2 ^ (1 - 1))) w1) of
             (Inr r, cb2, w2) \<Rightarrow> (Inr r, cb2, w2)
           | (Inl e2, cb2, w2) \<Rightarrow>
               (case predict_body remote instances parameters cb2
                       (sleep (min 10 (1 * 2 ^ (2 - 1))) w2) of
                  (Inr r, cb3, w3) \<Rightarrow> (Inr r, cb3, w3)
                | (Inl e3, cb3, w3) \<Rightarrow> (Inl (RetryError e3), cb3, w3))))
   \<and> (\<exists>k. 1 \<le> k \<and> k \<le> 3
         \<and> sleeps (snd (snd (predict remote instances parameters cb w)))
             = sleeps w @ map (\<lambda>n. min 10 (1 * 2 ^ (n - 1))) [1..<k]
         \<and> length (requests (snd (snd (predict remote instances parameters cb w))))
             \<le> length (requests w) + k)"
proof -
  obtain r cb' w' where p: "predict remote instances parameters cb w = (r, cb', w')"
    by (cases "predict remote instances parameters cb w")
  have "max_attempt_number predict_retry = 3" by (simp add: predict_retry_def)
  moreover have "\<forall>n. 1 \<le> n \<longrightarrow> wait_exponential predict_retry n = min 10 (1 * 2 ^ (n - 1))"
    using wait_predict_retry by blast
  moreover note predict_unrolled [of remote instances parameters cb w]
  moreover have "\<exists>k. 1 \<le> k \<and> k \<le> 3
         \<and> sleeps (snd (snd (predict remote instances parameters cb w)))
             = sleeps w @ map (\<lambda>n. min 10 (1 * 2 ^ (n - 1))) [1..<k]
         \<and> length (requests (snd (snd (predict remote instances parameters cb w))))
             \<le> length (requests w) + k"
    using predict_tries [OF p] p by simp
  ultimately show ?thesis by blast
qed

lemma classify_boom:
  "classify_error ''boom'' = PredictionError ''Prediction failed: boom''"
  by code_simp

lemmas predict_defs = predict_body_def make_prediction_request_def always_fails_def
  if_truthy_def sleep_def breaker_defs

theorem predict_retry_policy_witness:
  "predict (always_fails ''boom'') (Single ()) None (CircuitBreaker_init 5 60 (\<lambda>e. True)) world0
   = (Inl (RetryError (PredictionError ''Prediction failed: boom'')),
      \<lparr>failure_threshold = 5, recovery_timeout = 60, expected_exception = (\<lambda>e. True),
           failure_count = 3, last_failure_time = Some 4.5, state = CLOSED\<rparr>,
      \<lparr>now = 4.5, requests = [[()], [()], [()]], sleeps = [1, 2]\<rparr>)
   \<and> wait_exponential predict_retry 1 = 1 \<and> wait_exponential predict_retry 2 = 2
   \<and> wait_exponential predict_retry 7 = 10"
  using predict_retry_policy [of "always_fails ''boom''" "Single ()" None
          "CircuitBreaker_init 5 60 (\<lambda>e. True)" world0]
  by (simp add: predict_defs classify_boom)

subsection \<open>Control flow of predict and classification of failures\<close>








lemma classify_429:
  "classify_error ''429 too many'' = QuotaExceededError ''Quota exceeded: 429 too many''"
  by code_simp

lemma classify_open_message:
  "classify_error ''Circuit breaker is OPEN''
     = PredictionError ''Prediction failed: Circuit breaker is OPEN''"
  by code_simp


text \<open>
  C5, on the code: when all three attempts fail, the caller gets \<^verbatim>\<open>RetryError\<close>
  wrapping the last failure, not the last failure itself.
\<close>

theorem predict_exhausted_raises_RetryError:
  "predict (always_fails ''429 too many'') (Single ()) None
       (CircuitBreaker_init 5 60 (\<lambda>e. True)) world0
     = (Inl (RetryError (QuotaExceededError ''Quota exceeded: 429 too many'')),
        \<lparr>failure_threshold = 5, recovery_timeout = 60, expected_exception = (\<lambda>e. True),
           failure_count = 3, last_failure_time = Some 4.5, state = CLOSED\<rparr>,
        \<lparr>now = 4.5, requests = [[()], [()], [()]], sleeps = [1, 2]\<rparr>)
   \<and> fst (predict (always_fails ''429 too many'') (Single ()) None
             (CircuitBreaker_init 5 60 (\<lambda>e. True)) world0)
       \<noteq> Inl (QuotaExceededError ''Quota exceeded: 429 too many'')"
  by (simp add: predict_unrolled predict_defs classify_429)

text \<open>
  C7 as the spec states it (classification applied after the retry and breaker layers, on
  the final failure) fails: \<^verbatim>\<open>_make_prediction_request\<close>, the innermost function,
  already raises the classified exception; and the failure that comes out of the breaker
  and of \<^verbatim>\<open>predict\<close> when the breaker is Open has not been classified (classifying
  its message would give \<^verbatim>\<open>PredictionError\<close>).
\<close>

theorem classification_after_layers_counterexample:
  "fst (make_prediction_request (always_fails ''boom'') [()] None world0)
     = Inl (PredictionError ''Prediction failed: boom'')
   \<and> predict_body (always_fails ''boom'') (Single ()) None open_breaker (world0\<lparr>now := 10\<rparr>)
     = (Inl (ModelUnavailableError ''Circuit breaker is OPEN''), open_breaker, world0\<lparr>now := 10\<rparr>)
   \<and> fst (predict (always_fails ''boom'') (Single ()) None open_breaker (world0\<lparr>now := 10\<rparr>))
     = Inl (RetryError (ModelUnavailableError ''Circuit breaker is OPEN''))
   \<and> classify_error ''Circuit breaker is OPEN''
     = PredictionError ''Prediction failed: Circuit breaker is OPEN''"
  by (simp add: predict_unrolled predict_defs classify_boom classify_open_message
        open_breaker_def)

text \<open>
  C7, amended. A failure of the SDK call with message \<open>msg\<close> (the payload converted, so
  that the call is made) is classified by \<^verbatim>\<open>_make_prediction_request\<close> into exactly
  one of three kinds: QuotaExceeded when the lower-cased message contains "quota" or the
  message contains "429"; otherwise ModelUnavailable when the message contains "503" or
  the lower-cased message contains "unavailable"; otherwise PredictionError. This happens
  inside the breaker and retry layers, on each attempt: the breaker, when it lets the
  call through, gets and passes on the classified exception. The breaker's own rejection
  is not classified.
\<close>

theorem failure_classification:
  "(str_in ''quota'' (lower msg) \<or> str_in ''429'' msg \<longrightarrow>
      classify_error msg = QuotaExceededError (''Quota exceeded: '' @ msg))
   \<and> (\<not> (str_in ''quota'' (lower msg) \<or> str_in ''429'' msg)
        \<and> (str_in ''503'' msg \<or> str_in ''unavailable'' (lower msg)) \<longrightarrow>
      classify_error msg = ModelUnavailableError (''Model unavailable: '' @ msg))
   \<and> (\<not> (str_in ''quota'' (lower msg) \<or> str_in ''429'' msg)
        \<and> \<not> (str_in ''503'' msg \<or> str_in ''unavailable'' (lower msg)) \<longrightarrow>
      classify_error msg = PredictionError (''Prediction failed: '' @ msg))
   \<and> (comprehension (ParseDict remote) instances = Inr instances_proto
        \<and> if_truthy (ParseDict remote) parameters = Inr parameters_proto
        \<and> snd (client_predict remote w instances_proto parameters_proto) = Inl msg \<longrightarrow>
        fst (make_prediction_request remote instances parameters w) = Inl (classify_error msg)
        \<and> (state cb \<noteq> OPEN \<or> should_attempt_reset cb (now w) \<longrightarrow>
             fst (call cb (make_prediction_request remote instances parameters) w)
               = Inl (classify_error msg)))
   \<and> (state cb = OPEN \<and> \<not> should_attempt_reset cb (now w) \<longrightarrow>
        fst (call cb (make_prediction_request remote instances parameters) w)
          = Inl (ModelUnavailableError ''Circuit breaker is OPEN''))"
  by (auto simp: classify_error_def make_prediction_request_def call_def call_try_def Let_def
           split: prod.splits sum.splits)

lemma signals_both:
  "str_in ''quota'' (lower ''Service UNAVAILABLE: Quota hit'')"
  by code_simp

lemma signals_unavailable:
  "\<not> (str_in ''quota'' (lower ''Service UNAVAILABLE'') \<or> str_in ''429'' ''Service UNAVAILABLE'')"
  "str_in ''unavailable'' (lower ''Service UNAVAILABLE'')"
  by code_simp+

lemma signals_none:
  "\<not> (str_in ''quota'' (lower ''boom'') \<or> str_in ''429'' ''boom'')"
  "\<not> (str_in ''503'' ''boom'' \<or> str_in ''unavailable'' (lower ''boom''))"
  by code_simp+

theorem failure_classification_witness:
  "classify_error ''Service UNAVAILABLE: Quota hit''
     = QuotaExceededError ''Quota exceeded: Service UNAVAILABLE: Quota hit''
   \<and> classify_error ''Service UNAVAILABLE''
     = ModelUnavailableError ''Model unavailable: Service UNAVAILABLE''
   \<and> classify_error ''boom'' = PredictionError ''Prediction failed: boom''
   \<and> fst (call (CircuitBreaker_init 5 60 (\<lambda>e. True))
            (make_prediction_request (always_fails ''boom'') [()] None) world0)
     = Inl (PredictionError ''Prediction failed: boom'')
   \<and> fst (call open_breaker (make_prediction_request (always_fails ''boom'') [()] None)
            (world0\<lparr>now := 10\<rparr>))
     = Inl (ModelUnavailableError ''Circuit breaker is OPEN'')"
  using failure_classification [where msg = "''Service UNAVAILABLE: Quota hit''"
          and remote = "always_fails ''boom''" and w = world0 and instances = "[()]"
          and instances_proto = "[()]" and parameters = None and parameters_proto = None
          and cb = "CircuitBreaker_init 5 60 (\<lambda>e. True)"]
        failure_classification [where msg = "''Service UNAVAILABLE''"
          and remote = "always_fails ''boom''" and w = world0 and instances = "[()]"
          and instances_proto = "[()]" and parameters = None and parameters_proto = None
          and cb = "CircuitBreaker_init 5 60 (\<lambda>e. True)"]
        failure_classification [where msg = "''boom''"
          and remote = "always_fails ''boom''" and w = world0 and instances = "[()]"
          and instances_proto = "[()]" and parameters = None and parameters_proto = None
          and cb = "CircuitBreaker_init 5 60 (\<lambda>e. True)"]
        failure_classification [where msg = "''boom''"
          and remote = "always_fails ''boom''" and w = "world0\<lparr>now := 10\<rparr>"
          and instances = "[()]"
          and instances_proto = "[()]" and parameters = None and parameters_proto = None
          and cb = open_breaker]
        signals_both signals_unavailable signals_none
  by (simp add: always_fails_def if_truthy_def CircuitBreaker_init_def open_breaker_def
        should_attempt_reset_def world0_def)

subsection \<open>Batches\<close>














subsection \<open>Parallel batches\<close>

lemma vertex_predict_eq: "vertex_predict endpoint instances s = endpoint instances s"
  by (auto simp: vertex_predict_def split: prod.splits sum.splits)

lemma run_tasks_length:
  "length (fst (run_tasks ep bs order slots s)) = length slots"
proof (induction order arbitrary: slots s)
  case Nil
  show ?case by simp
next
  case (Cons k order)
  show ?case using Cons.IH by (auto split: prod.splits)
qed

lemma run_tasks_keeps:
  "slots ! i = Some r \<Longrightarrow> fst (run_tasks ep bs order slots s) ! i = Some r"
proof (induction order arbitrary: slots s)
  case Nil
  then show ?case by simp
next
  case (Cons k order)
  show ?case
  proof (cases "k < length bs \<and> slots ! k = None")
    case False
    then have "run_tasks ep bs (k # order) slots s = run_tasks ep bs order slots s"
      by auto
    then show ?thesis using Cons.IH [OF Cons.prems] by simp
  next
    case True
    then have ne: "k \<noteq> i" using Cons.prems by auto
    obtain o1 s1 where e: "vertex_predict ep (bs ! k) s = (o1, s1)"
      by (cases "vertex_predict ep (bs ! k) s")
    have "(slots[k := Some o1]) ! i = Some r" using ne Cons.prems by simp
    from Cons.IH [OF this, of s1] show ?thesis using True e by simp
  qed
qed

lemma run_tasks_untouched:
  "i \<notin> set order \<Longrightarrow> fst (run_tasks ep bs order slots s) ! i = slots ! i"
proof (induction order arbitrary: slots s)
  case Nil
  then show ?case by simp
next
  case (Cons k order)
  then have ne: "k \<noteq> i" and rest: "i \<notin> set order" by auto
  show ?case
  proof (cases "k < length bs \<and> slots ! k = None")
    case False
    then have "run_tasks ep bs (k # order) slots s = run_tasks ep bs order slots s"
      by auto
    then show ?thesis using Cons.IH [OF rest] by simp
  next
    case True
    obtain o1 s1 where e: "vertex_predict ep (bs ! k) s = (o1, s1)"
      by (cases "vertex_predict ep (bs ! k) s")
    from Cons.IH [OF rest, of "slots[k := Some o1]" s1] show ?thesis
      using True e ne by simp
  qed
qed

lemma run_tasks_append:
  "run_tasks ep bs (pre @ post) slots s =
     (case run_tasks ep bs pre slots s of (sl, s1) \<Rightarrow> run_tasks ep bs post sl s1)"
proof (induction pre arbitrary: slots s)
  case Nil
  show ?case by simp
next
  case (Cons k pre)
  show ?case using Cons.IH by (auto split: prod.splits)
qed

lemma run_tasks_slot:
  assumes "i < length bs" and "length slots = length bs" and "slots ! i = None"
    and "i \<notin> set pre"
  shows "fst (run_tasks ep bs (pre @ i # post) slots s) ! i
           = Some (fst (ep (bs ! i) (snd (run_tasks ep bs pre slots s))))"
proof -
  obtain sl s1 where a: "run_tasks ep bs pre slots s = (sl, s1)"
    by (cases "run_tasks ep bs pre slots s")
  have n: "sl ! i = None"
    using run_tasks_untouched [OF assms(4), of ep bs slots s] a assms(3) by simp
  have l: "length sl = length bs"
    using run_tasks_length [of ep bs pre slots s] a assms(2) by simp
  obtain o1 s2 where e: "ep (bs ! i) s1 = (o1, s2)" by (cases "ep (bs ! i) s1")
  have "(sl[i := Some o1]) ! i = Some o1" using l assms(1) by simp
  from run_tasks_keeps [OF this, of ep bs post s2]
  show ?thesis using a n e assms(1)
    by (simp add: run_tasks_append vertex_predict_eq)
qed

lemma run_tasks_filled:
  assumes "length slots = length bs" and "\<forall>i < length bs. i \<in> set order"
  shows "None \<notin> set (fst (run_tasks ep bs order slots s))"
proof
  assume "None \<in> set (fst (run_tasks ep bs order slots s))"
  then obtain i where i: "i < length (fst (run_tasks ep bs order slots s))"
    and n: "fst (run_tasks ep bs order slots s) ! i = None"
    by (auto simp: in_set_conv_nth)
  have ib: "i < length bs" using i assms(1) by (simp add: run_tasks_length)
  then have "i \<in> set order" using assms(2) by simp
  then obtain pre post where sp: "order = pre @ i # post" and np: "i \<notin> set pre"
    using split_list_first by fastforce
  show False
  proof (cases "slots ! i")
    case None
    from run_tasks_slot [OF ib assms(1) None np, of ep post s] n sp show False by simp
  next
    case (Some r)
    from run_tasks_keeps [OF Some, of ep bs order s] n show False by simp
  qed
qed

text \<open>
  C9. For every list of sub-batches, every endpoint and every order in which the tasks
  complete (each task completing): \<^verbatim>\<open>predict_batch_parallel\<close> returns and does not
  raise; the result has exactly one slot per sub-batch; slot \<open>i\<close> holds the outcome of
  the endpoint on sub-batch \<open>i\<close>, in the state left by the tasks that completed before
  task \<open>i\<close>: its predictions, or the empty list if it raised, the other slots being
  filled all the same. For an endpoint whose outcome depends on the sub-batch only, the
  result is the same list for every completion order.
\<close>

theorem parallel_slots:
  fixes endpoint :: "('i, 'p, 'st) endpoint"
  assumes "\<forall>i < length batch_instances. i \<in> set order"
  shows "\<exists>results s'.
           predict_batch_parallel endpoint batch_instances order s = Some (Inr results, s')
         \<and> length results = length batch_instances
         \<and> (\<forall>i pre post. i < length batch_instances \<and> order = pre @ i # post \<and> i \<notin> set pre \<longrightarrow>
               results ! i =
                 (case fst (endpoint (batch_instances ! i)
                         (snd (run_tasks endpoint batch_instances pre
                                 (replicate (length batch_instances) None) s))) of
                    Inl e \<Rightarrow> []
                  | Inr prediction \<Rightarrow> prediction))
         \<and> ((\<forall>b s1 s2. fst (endpoint b s1) = fst (endpoint b s2)) \<longrightarrow>
               results = map (\<lambda>b. case fst (endpoint b s) of Inl e \<Rightarrow> [] | Inr prediction \<Rightarrow> prediction)
                           batch_instances)"
proof -
  let ?n = "length batch_instances"
  let ?init = "replicate ?n (None :: (exn + 'p list) option)"
  let ?conv = "\<lambda>result :: exn + 'p list. case result of Inl e \<Rightarrow> [] | Inr r \<Rightarrow> r"
  obtain slots s' where run: "run_tasks endpoint batch_instances order ?init s = (slots, s')"
    by (cases "run_tasks endpoint batch_instances order ?init s")
  have len: "length slots = ?n"
    using run_tasks_length [of endpoint batch_instances order ?init s] run by simp
  have full: "None \<notin> set slots"
    using run_tasks_filled [of ?init batch_instances order endpoint s] assms run by simp
  let ?results = "map ?conv (map the slots)"
  have res: "predict_batch_parallel endpoint batch_instances order s = Some (Inr ?results, s')"
    using run full by (simp add: predict_batch_parallel_def gather_def)
  have slot: "\<forall>i pre post. i < ?n \<and> order = pre @ i # post \<and> i \<notin> set pre \<longrightarrow>
               ?results ! i =
                 (case fst (endpoint (batch_instances ! i)
                         (snd (run_tasks endpoint batch_instances pre ?init s))) of
                    Inl e \<Rightarrow> []
                  | Inr prediction \<Rightarrow> prediction)"
  proof (intro allI impI)
    fix i pre post
    assume a: "i < ?n \<and> order = pre @ i # post \<and> i \<notin> set pre"
    have "fst (run_tasks endpoint batch_instances (pre @ i # post) ?init s) ! i
           = Some (fst (endpoint (batch_instances ! i)
                     (snd (run_tasks endpoint batch_instances pre ?init s))))"
      using a by (intro run_tasks_slot) simp_all
    then have "slots ! i = Some (fst (endpoint (batch_instances ! i)
                     (snd (run_tasks endpoint batch_instances pre ?init s))))"
      using a run by simp
    then show "?results ! i =
                 (case fst (endpoint (batch_instances ! i)
                         (snd (run_tasks endpoint batch_instances pre ?init s))) of
                    Inl e \<Rightarrow> []
                  | Inr prediction \<Rightarrow> prediction)"
      using a len by simp
  qed
  have pure: "(\<forall>b s1 s2. fst (endpoint b s1) = fst (endpoint b s2)) \<longrightarrow>
               ?results = map (\<lambda>b. case fst (endpoint b s) of Inl e \<Rightarrow> [] | Inr prediction \<Rightarrow> prediction)
                           batch_instances"
  proof
    assume p: "\<forall>b s1 s2. fst (endpoint b s1) = fst (endpoint b s2)"
    show "?results = map (\<lambda>b. case fst (endpoint b s) of Inl e \<Rightarrow> [] | Inr prediction \<Rightarrow> prediction)
                           batch_instances"
    proof (rule nth_equalityI)
      show "length ?results = length (map (\<lambda>b. case fst (endpoint b s) of Inl e \<Rightarrow> []
                                               | Inr prediction \<Rightarrow> prediction) batch_instances)"
        using len by simp
    next
      fix i
      assume "i < length ?results"
      then have i: "i < ?n" using len by simp
      then have "i \<in> set order" using assms by simp
      then obtain pre post where sp: "order = pre @ i # post" and np: "i \<notin> set pre"
        using split_list_first by fastforce
      have "?results ! i =
                 (case fst (endpoint (batch_instances ! i)
                         (snd (run_tasks endpoint batch_instances pre ?init s))) of
                    Inl e \<Rightarrow> []
                  | Inr prediction \<Rightarrow> prediction)"
        using slot i sp np by blast
      also have "fst (endpoint (batch_instances ! i)
                         (snd (run_tasks endpoint batch_instances pre ?init s)))
                 = fst (endpoint (batch_instances ! i) s)"
        using p by blast
      finally show "?results ! i
          = map (\<lambda>b. case fst (endpoint b s) of Inl e \<Rightarrow> [] | Inr prediction \<Rightarrow> prediction)
              batch_instances ! i"
        using i by simp
    qed
  qed
  have "length ?results = ?n" using len by simp
  with res slot pure show ?thesis by blast
qed

theorem parallel_slots_witness:
  "predict_batch_parallel flaky [[1], [2], [3]] [2, 0, 1] []
     = Some (Inr [[10], [], [30]], [[3], [1], [2]])
   \<and> predict_batch_parallel flaky [[1], [2], [3]] [0, 1, 2] []
     = Some (Inr [[10], [], [30]], [[1], [2], [3]])"
proof -
  have a: "\<forall>i < length [[1], [2], [3::nat]]. i \<in> set [2, 0, 1::nat]" by auto
  have b: "\<forall>i < length [[1], [2], [3::nat]]. i \<in> set [0, 1, 2::nat]" by auto
  from parallel_slots [OF a, of flaky "[]"] parallel_slots [OF b, of flaky "[]"]
  show ?thesis
    by (simp add: predict_batch_parallel_def gather_def vertex_predict_def flaky_def)
qed

end
